theory Spec2Isabelle
  imports Complex_Main
begin

section \<open>Arithmetic conventions\<close>

text \<open>
  The C++ sources compute in IEEE-754 \<^verbatim>\<open>float\<close> and \<^verbatim>\<open>double\<close>. This development
  embeds every such value as a \<^typ>\<open>real\<close>: conversions between \<^verbatim>\<open>float\<close> and
  \<^verbatim>\<open>double\<close> are the identity, literals denote their decimal value
  (\<^verbatim>\<open>1e-20f\<close> is \<open>1 / 10 ^ 20\<close>), and \<^verbatim>\<open>+\<close>, \<^verbatim>\<open>-\<close>, \<^verbatim>\<open>*\<close>, \<^verbatim>\<open>/\<close> are exact.
  Rounding, overflow, infinities and NaN are therefore outside the model; what is proved
  below is the algebraic and control-flow behaviour of the code. Indices and counters
  (\<^verbatim>\<open>size_t\<close>) are natural numbers, the channel count (\<^verbatim>\<open>int\<close>) is an integer.
\<close>

text \<open>
  The library functions \<^verbatim>\<open>std::sin\<close> and \<^verbatim>\<open>std::tanh\<close> on \<^verbatim>\<open>float\<close> are not part of
  the repository and are not the real functions: the computed sine of \<open>2 * float(M_PI) * ph\<close>
  is not exactly periodic in \<open>ph\<close> and has its own sign at the half periods. They are
  parameters of the model, the two fields of a \<open>libm\<close>; where a statement needs their
  range, it assumes that their values lie in \<open>[-1, 1]\<close>, nothing more. \<open>libm_ideal\<close>, the
  real sine and hyperbolic tangent, is one such pair. \<^verbatim>\<open>float(M_PI)\<close> is the \<^verbatim>\<open>float\<close>
  nearest to \<open>\<pi>\<close>, \<open>13176795 / 2 ^ 22\<close>. \<^verbatim>\<open>std::exp\<close> only enters the smoothing
  coefficient and is the real exponential.
\<close>

record libm =
  sinf :: "real \<Rightarrow> real"
  tanhf :: "real \<Rightarrow> real"

definition libm_ideal :: libm where
  "libm_ideal = \<lparr>sinf = sin, tanhf = tanh\<rparr>"

definition pi_f :: real where
  "pi_f = 13176795 / 2 ^ 22"

text \<open>\<^verbatim>\<open>std::fmod(x, y)\<close>: \<open>x - n * y\<close> where \<open>n\<close> is \<open>x / y\<close> truncated towards zero, so
  the result carries the sign of \<open>x\<close>.\<close>

definition trunc_toward_zero :: "real \<Rightarrow> int" where
  "trunc_toward_zero x = (if 0 \<le> x then \<lfloor>x\<rfloor> else \<lceil>x\<rceil>)"

definition fmod :: "real \<Rightarrow> real \<Rightarrow> real" where
  "fmod x y = x - of_int (trunc_toward_zero (x / y)) * y"

text \<open>\<^verbatim>\<open>Tremolo.cpp\<close>, lines 9--10.\<close>

definition clamp01 :: "real \<Rightarrow> real" where
  "clamp01 x = max 0 (min 1 x)"

definition clamp11 :: "real \<Rightarrow> real" where
  "clamp11 x = max (- 1) (min 1 x)"

text \<open>The constant \<^verbatim>\<open>tiny = 1e-20f\<close> of \<^verbatim>\<open>OnePoleSmoother::process\<close> and of
  \<^verbatim>\<open>Tremolo::process\<close>.\<close>

definition tiny :: real where
  "tiny = 1 / 10 ^ 20"

section \<open>OnePoleSmoother.h\<close>

text \<open>The fields \<^verbatim>\<open>a\<close> and \<^verbatim>\<open>z\<close> of the struct are called \<open>sm_a\<close> and \<open>sm_z\<close> here, so
  that one-letter variables stay free in the statements below.\<close>

record OnePoleSmoother =
  sampleRate :: real
  tau :: real
  sm_a :: real
  sm_z :: real

text \<open>The default member initialisers.\<close>

definition OnePoleSmoother_init :: OnePoleSmoother where
  "OnePoleSmoother_init = \<lparr>sampleRate = 48000, tau = 1 / 100, sm_a = 0, sm_z = 0\<rparr>"

definition updateCoeff :: "OnePoleSmoother \<Rightarrow> OnePoleSmoother" where
  "updateCoeff s = s\<lparr>sm_a := exp (- 1 / (tau s * sampleRate s))\<rparr>"

definition sm_setSampleRate :: "OnePoleSmoother \<Rightarrow> real \<Rightarrow> OnePoleSmoother" where
  "sm_setSampleRate s fs = updateCoeff (s\<lparr>sampleRate := (if fs > 0 then fs else 48000)\<rparr>)"

definition sm_setTimeConstant :: "OnePoleSmoother \<Rightarrow> real \<Rightarrow> OnePoleSmoother" where
  "sm_setTimeConstant s tauSeconds =
     updateCoeff (s\<lparr>tau := (if tauSeconds > 1 / 10 ^ 6 then tauSeconds else 1 / 10 ^ 6)\<rparr>)"

definition sm_reset :: "OnePoleSmoother \<Rightarrow> real \<Rightarrow> OnePoleSmoother" where
  "sm_reset s v = s\<lparr>sm_z := v\<rparr>"

text \<open>\<^verbatim>\<open>process\<close> returns the new \<^verbatim>\<open>z\<close> together with the updated smoother.\<close>

definition sm_process :: "OnePoleSmoother \<Rightarrow> real \<Rightarrow> real \<times> OnePoleSmoother" where
  "sm_process s target =
     (let z' = sm_a s * (sm_z s + tiny) + (1 - sm_a s) * target
      in (z', s\<lparr>sm_z := z'\<rparr>))"

section \<open>Tremolo.h, Tremolo.cpp\<close>

datatype LFOShape = Sine | Triangle | Square | SquareSoft

text \<open>The members \<^verbatim>\<open>sr_\<close>, \<^verbatim>\<open>rateHz_\<close>, ... of the struct, without the trailing
  underscore.\<close>

record Tremolo =
  sr :: real
  rateHz :: real
  depth :: real
  wet :: real
  phase :: real
  phaseInc :: real
  stereoPhaseR :: real
  shape :: LFOShape
  depthSm :: OnePoleSmoother
  rateSm :: OnePoleSmoother

text \<open>A default-constructed engine.\<close>

definition Tremolo_init :: Tremolo where
  "Tremolo_init =
     \<lparr>sr = 48000, rateHz = 5, depth = 6 / 10, wet = 1, phase = 0, phaseInc = 0,
      stereoPhaseR = 0, shape = Sine,
      depthSm = OnePoleSmoother_init, rateSm = OnePoleSmoother_init\<rparr>"

definition setSampleRate :: "Tremolo \<Rightarrow> real \<Rightarrow> Tremolo" where
  "setSampleRate s fs =
     (let sr' = (if fs > 0 then fs else 48000);
          d1 = sm_setSampleRate (depthSm s) sr';
          r1 = sm_setSampleRate (rateSm s) sr';
          d2 = sm_setTimeConstant d1 (1 / 100);
          r2 = sm_setTimeConstant r1 (1 / 100);
          d3 = sm_reset d2 (depth s);
          r3 = sm_reset r2 (rateHz s)
      in s\<lparr>sr := sr', depthSm := d3, rateSm := r3, phaseInc := rateHz s / sr'\<rparr>)"

definition setDepth :: "Tremolo \<Rightarrow> real \<Rightarrow> Tremolo" where
  "setDepth s d = s\<lparr>depth := clamp01 d\<rparr>"

definition setRateHz :: "Tremolo \<Rightarrow> real \<Rightarrow> Tremolo" where
  "setRateHz s r = s\<lparr>rateHz := max (1 / 10000) r\<rparr>"

definition setWet :: "Tremolo \<Rightarrow> real \<Rightarrow> Tremolo" where
  "setWet s w = s\<lparr>wet := clamp01 w\<rparr>"

definition setStereoPhaseDeg :: "Tremolo \<Rightarrow> real \<Rightarrow> Tremolo" where
  "setStereoPhaseDeg s deg = (let d = max 0 (min 180 deg) in s\<lparr>stereoPhaseR := d / 360\<rparr>)"

definition setShape :: "Tremolo \<Rightarrow> LFOShape \<Rightarrow> Tremolo" where
  "setShape s sh = s\<lparr>shape := sh\<rparr>"

subsection \<open>Waveform generators\<close>

definition lfoSine :: "libm \<Rightarrow> real \<Rightarrow> real" where
  "lfoSine m ph = (1 / 2) * (1 + sinf m (2 * pi_f * ph))"

definition lfoTriangle :: "real \<Rightarrow> real" where
  "lfoTriangle ph =
     (let t = fmod ph 1;
          tri = (if t < 1 / 2 then t * 4 - 1 else 3 - t * 4)
      in (1 / 2) * (tri + 1))"

definition lfoSquare :: "libm \<Rightarrow> real \<Rightarrow> real" where
  "lfoSquare m ph = (let s = sinf m (2 * pi_f * ph) in if s \<ge> 0 then 1 else 0)"

definition lfoSquareSoft :: "libm \<Rightarrow> real \<Rightarrow> real" where
  "lfoSquareSoft m ph =
     (let s = sinf m (2 * pi_f * ph);
          y = tanhf m (3 * s)
      in (1 / 2) * (y + 1))"

text \<open>The \<^verbatim>\<open>switch (shape_)\<close> of \<^verbatim>\<open>Tremolo::process\<close>: both channels use the same
  generator.\<close>

definition lfo :: "libm \<Rightarrow> LFOShape \<Rightarrow> real \<Rightarrow> real" where
  "lfo m sh ph =
     (case sh of
        Triangle \<Rightarrow> lfoTriangle ph
      | Square \<Rightarrow> lfoSquare m ph
      | SquareSoft \<Rightarrow> lfoSquareSoft m ph
      | Sine \<Rightarrow> lfoSine m ph)"

subsection \<open>Tremolo::process\<close>

text \<open>
  The buffer \<^verbatim>\<open>float* interleaved\<close> is a \<^typ>\<open>real list option\<close>: \<open>None\<close> is the null
  pointer, \<open>Some buf\<close> a pointer to \<open>length buf\<close> floats. An access outside the buffer
  is undefined behaviour in C++; the model returns \<open>None\<close> for the whole call there.
  (\<^verbatim>\<open>i * 2\<close> on a 64-bit \<^verbatim>\<open>size_t\<close> cannot wrap before an access has already left
  any buffer that fits in memory, so indices are plain natural numbers.)
\<close>

text \<open>Lines 103--105: advance and wrap the phase once.\<close>

definition advance_phase :: "Tremolo \<Rightarrow> Tremolo" where
  "advance_phase s =
     (let p = phase s + phaseInc s
      in s\<lparr>phase := (if p \<ge> 1 then p - 1 else p)\<rparr>)"

text \<open>The mix of one sample, lines 85--88 (mono) and 92--99 (stereo).\<close>

definition mix :: "real \<Rightarrow> real \<Rightarrow> real \<Rightarrow> real" where
  "mix w gain inp =
     (let x = inp + tiny;
          wetSig = x * gain;
          y = (1 - w) * x + w * wetSig
      in clamp11 y)"

text \<open>One iteration of the \<^verbatim>\<open>for\<close> loop, lines 65--106, at frame index \<open>i\<close>.\<close>

definition process_frame :: "libm \<Rightarrow> Tremolo \<Rightarrow> real list \<Rightarrow> nat \<Rightarrow> int \<Rightarrow> (Tremolo \<times> real list) option" where
  "process_frame m s buf i channels =
     (let (rateNow, rsm) = sm_process (rateSm s) (rateHz s);
          pinc = max (1 / 10 ^ 9) (rateNow / sr s);
          (dNow, dsm) = sm_process (depthSm s) (depth s);
          phL = phase s;
          phR = fmod (phase s + stereoPhaseR s) 1;
          lfoL = lfo m (shape s) phL;
          lfoR = lfo m (shape s) phR;
          gainL = 1 - dNow * lfoL;
          gainR = 1 - dNow * lfoR;
          s1 = s\<lparr>rateSm := rsm, phaseInc := pinc, depthSm := dsm\<rparr>
      in if channels = 1 then
           (if i < length buf
            then Some (advance_phase s1, buf[i := mix (wet s) gainL (buf ! i)])
            else None)
         else
           (if i * 2 + 1 < length buf
            then Some (advance_phase s1,
                       buf[i * 2 := mix (wet s) gainL (buf ! (i * 2)),
                           i * 2 + 1 := mix (wet s) gainR (buf ! (i * 2 + 1))])
            else None))"

function process_loop :: "libm \<Rightarrow> Tremolo \<Rightarrow> real list \<Rightarrow> nat \<Rightarrow> nat \<Rightarrow> int \<Rightarrow> (Tremolo \<times> real list) option" where
  "process_loop m s buf i frames channels =
     (if i < frames then
        (case process_frame m s buf i channels of
           None \<Rightarrow> None
         | Some (s', buf') \<Rightarrow> process_loop m s' buf' (i + 1) frames channels)
      else Some (s, buf))"
  by pat_completeness auto
termination
  by (relation "measure (\<lambda>(m, s, buf, i, frames, channels). frames - i)") auto

declare process_loop.simps [simp del]

definition process :: "libm \<Rightarrow> Tremolo \<Rightarrow> real list option \<Rightarrow> nat \<Rightarrow> int \<Rightarrow> (Tremolo \<times> real list option) option" where
  "process m s interleaved frames channels =
     (case interleaved of
        None \<Rightarrow> Some (s, None)
      | Some buf \<Rightarrow>
          if channels < 1 then Some (s, Some buf)
          else map_option (\<lambda>(s', buf'). (s', Some buf')) (process_loop m s buf 0 frames channels))"

subsection \<open>The pieces of one iteration\<close>

text \<open>
  For the proofs, the body of the loop is cut into what it does to the engine and the two
  gains it computes. \<open>frame_state\<close> is the engine after one iteration (both smoothers
  stepped, \<^verbatim>\<open>phaseInc_\<close> stored, phase advanced); \<open>gainL\<close> and \<open>gainR\<close> are the locals
  \<^verbatim>\<open>gainL\<close> and \<^verbatim>\<open>gainR\<close> of that iteration. Lemma \<open>process_frame_eq\<close> below shows that
  \<open>process_frame\<close> is made of exactly these pieces.
\<close>

definition frame_state :: "Tremolo \<Rightarrow> Tremolo" where
  "frame_state s =
     (let (rateNow, rsm) = sm_process (rateSm s) (rateHz s);
          pinc = max (1 / 10 ^ 9) (rateNow / sr s);
          (dNow, dsm) = sm_process (depthSm s) (depth s)
      in advance_phase (s\<lparr>rateSm := rsm, phaseInc := pinc, depthSm := dsm\<rparr>))"

definition gainL :: "libm \<Rightarrow> Tremolo \<Rightarrow> real" where
  "gainL m s = 1 - fst (sm_process (depthSm s) (depth s)) * lfo m (shape s) (phase s)"

definition gainR :: "libm \<Rightarrow> Tremolo \<Rightarrow> real" where
  "gainR m s =
     1 - fst (sm_process (depthSm s) (depth s)) * lfo m (shape s) (fmod (phase s + stereoPhaseR s) 1)"

section \<open>FeatureExtractor.h\<close>

definition FrameSize :: nat where
  "FrameSize = 1024"

record FeatureExtractor =
  buf :: "real list"

text \<open>The constructor only reserves capacity: the window starts empty.\<close>

definition FeatureExtractor_init :: FeatureExtractor where
  "FeatureExtractor_init = \<lparr>buf = []\<rparr>"

text \<open>\<^verbatim>\<open>push_back\<close>, then \<^verbatim>\<open>erase(begin())\<close> when the size exceeds \<^verbatim>\<open>FrameSize\<close>.\<close>

definition pushSample :: "FeatureExtractor \<Rightarrow> real \<Rightarrow> real \<Rightarrow> FeatureExtractor" where
  "pushSample fe L R =
     (let m = (1 / 2) * (L + R);
          pushed = buf fe @ [m]
      in fe\<lparr>buf := (if length pushed > FrameSize then tl pushed else pushed)\<rparr>)"

definition ready :: "FeatureExtractor \<Rightarrow> bool" where
  "ready fe = (length (buf fe) = FrameSize)"

definition fe_reset :: "FeatureExtractor \<Rightarrow> FeatureExtractor" where
  "fe_reset fe = fe\<lparr>buf := []\<rparr>"

definition rms :: "FeatureExtractor \<Rightarrow> real" where
  "rms fe =
     (if buf fe = [] then 0
      else sqrt (foldl (\<lambda>acc x. acc + x * x) 0 (buf fe) / real (length (buf fe))))"

text \<open>The counting loop of \<^verbatim>\<open>zcr\<close>, \<^verbatim>\<open>for (size_t i = 1; i < buf.size(); ++i)\<close>, with its
  counter \<^verbatim>\<open>crossings\<close>.\<close>

function zcr_loop :: "real list \<Rightarrow> nat \<Rightarrow> nat \<Rightarrow> nat" where
  "zcr_loop xs i crossings =
     (if i < length xs then
        (let a = xs ! (i - 1); b = xs ! i
         in zcr_loop xs (i + 1)
              (crossings + (if (a \<ge> 0 \<and> b < 0) \<or> (a < 0 \<and> b \<ge> 0) then 1 else 0)))
      else crossings)"
  by pat_completeness auto
termination
  by (relation "measure (\<lambda>(xs, i, crossings). length xs - i)") auto

declare zcr_loop.simps [simp del]

definition zcr :: "FeatureExtractor \<Rightarrow> real" where
  "zcr fe =
     (if length (buf fe) < 2 then 0
      else real (zcr_loop (buf fe) 1 0) / real (length (buf fe) - 1))"

text \<open>The operations a driver can apply to an extractor; the three queries are
  \<^verbatim>\<open>const\<close> member functions and leave the window as it is.\<close>

datatype fe_op = PushSample real real | Reset | Ready | Rms | Zcr

fun fe_step :: "FeatureExtractor \<Rightarrow> fe_op \<Rightarrow> FeatureExtractor" where
  "fe_step fe (PushSample L R) = pushSample fe L R"
| "fe_step fe Reset = fe_reset fe"
| "fe_step fe Ready = fe"
| "fe_step fe Rms = fe"
| "fe_step fe Zcr = fe"

definition fe_run :: "FeatureExtractor \<Rightarrow> fe_op list \<Rightarrow> FeatureExtractor" where
  "fe_run fe ops = foldl fe_step fe ops"

text \<open>The sign transitions of a window as the specification words them: the positions
  whose two neighbouring samples fall on different sides, a sample counting as
  non-negative when it is \<open>\<ge> 0\<close>.\<close>

definition spec_sign_transitions :: "real list \<Rightarrow> nat" where
  "spec_sign_transitions xs =
     length (filter (\<lambda>i. (0 \<le> xs ! (i - 1)) \<noteq> (0 \<le> xs ! i)) [1..<length xs])"

section \<open>main.cpp: tempo sync\<close>

text \<open>The \<^verbatim>\<open>std::map\<close> of \<^verbatim>\<open>divisionToHz\<close>, as the association list it is initialised
  from (its keys are distinct).\<close>

definition beats :: "(string \<times> real) list" where
  "beats = [(''1'', 4), (''1/2'', 2), (''1/4'', 1), (''1/8'', 1 / 2), (''1/16'', 1 / 4)]"

definition divisionToHz :: "real \<Rightarrow> string \<Rightarrow> real" where
  "divisionToHz bpm dv =
     (case map_of beats dv of
        None \<Rightarrow> - 1
      | Some beatsPerCycle \<Rightarrow> (bpm / 60) / beatsPerCycle)"

text \<open>
  Lines 162--176 of \<^verbatim>\<open>main\<close>, after the engine has been configured. The argument
  \<open>parsed\<close> is what \<^verbatim>\<open>parseRateSync\<close> delivers: \<open>None\<close> when it returns \<^verbatim>\<open>false\<close> (or
  when no \<^verbatim>\<open>--rate-sync\<close> was given), \<open>Some (bpm, dv)\<close> otherwise. The messages written
  to \<^verbatim>\<open>std::cerr\<close> are not modelled.
\<close>

definition main_rateSync :: "Tremolo \<Rightarrow> (real \<times> string) option \<Rightarrow> Tremolo" where
  "main_rateSync trem parsed =
     (case parsed of
        None \<Rightarrow> trem
      | Some (bpm, dv) \<Rightarrow>
          (let hz = divisionToHz bpm dv
           in if hz > 0 then setRateHz trem hz else trem))"

section \<open>The smoother\<close>

lemma sm_process_update:
  "fst (sm_process s target) = sm_a s * (sm_z s + 1 / 10 ^ 20) + (1 - sm_a s) * target"
  "sm_z (snd (sm_process s target)) = fst (sm_process s target)"
  "sm_a (snd (sm_process s target)) = sm_a s"
  "tau (snd (sm_process s target)) = tau s"
  "sampleRate (snd (sm_process s target)) = sampleRate s"
  by (simp_all add: sm_process_def tiny_def Let_def)

lemma coeff_recomputed:
  "sm_a (sm_setSampleRate s fs) =
     exp (- 1 / (tau (sm_setSampleRate s fs) * sampleRate (sm_setSampleRate s fs)))"
  "sm_a (sm_setTimeConstant s t) =
     exp (- 1 / (tau (sm_setTimeConstant s t) * sampleRate (sm_setTimeConstant s t)))"
  by (simp_all add: sm_setSampleRate_def sm_setTimeConstant_def updateCoeff_def)

lemma setter_fields:
  "sampleRate (sm_setSampleRate s fs) = (if fs > 0 then fs else 48000)"
  "tau (sm_setSampleRate s fs) = tau s"
  "sm_z (sm_setSampleRate s fs) = sm_z s"
  "tau (sm_setTimeConstant s t) = (if t > 1 / 10 ^ 6 then t else 1 / 10 ^ 6)"
  "sampleRate (sm_setTimeConstant s t) = sampleRate s"
  "sm_z (sm_setTimeConstant s t) = sm_z s"
  by (simp_all add: sm_setSampleRate_def sm_setTimeConstant_def updateCoeff_def)

lemma exp_coeff_in_unit:
  fixes t r :: real
  assumes "0 < t" "0 < r"
  shows "0 < exp (- 1 / (t * r)) \<and> exp (- 1 / (t * r)) < 1"
proof -
  from assms have "0 < t * r" by simp
  then have "- 1 / (t * r) < 0" by simp
  then show ?thesis by simp
qed

lemma convex_between:
  fixes c x y :: real
  assumes "0 \<le> c" "c \<le> 1"
  shows "min x y \<le> c * x + (1 - c) * y \<and> c * x + (1 - c) * y \<le> max x y"
proof -
  from assms have c: "0 \<le> c" "0 \<le> 1 - c" by simp_all
  have "c * min x y \<le> c * x" "(1 - c) * min x y \<le> (1 - c) * y"
    "c * x \<le> c * max x y" "(1 - c) * y \<le> (1 - c) * max x y"
    using c by (simp_all add: mult_left_mono)
  moreover have "c * min x y + (1 - c) * min x y = min x y"
    "c * max x y + (1 - c) * max x y = max x y"
    by (simp_all add: algebra_simps)
  ultimately show ?thesis by linarith
qed

text \<open>
  The time constant and the sample rate are positive and the coefficient lies in \<open>[0, 1]\<close>
  in a freshly constructed smoother, and every operation keeps it so.
\<close>

lemma smoother_invariant_kept:
  assumes "0 < tau s" "0 < sampleRate s" "0 \<le> sm_a s" "sm_a s \<le> 1"
  shows "0 < tau (sm_setSampleRate s fs) \<and> 0 < sampleRate (sm_setSampleRate s fs) \<and>
         0 \<le> sm_a (sm_setSampleRate s fs) \<and> sm_a (sm_setSampleRate s fs) \<le> 1"
    and "0 < tau (sm_setTimeConstant s t) \<and> 0 < sampleRate (sm_setTimeConstant s t) \<and>
         0 \<le> sm_a (sm_setTimeConstant s t) \<and> sm_a (sm_setTimeConstant s t) \<le> 1"
    and "0 < tau (sm_reset s v) \<and> 0 < sampleRate (sm_reset s v) \<and>
         0 \<le> sm_a (sm_reset s v) \<and> sm_a (sm_reset s v) \<le> 1"
    and "0 < tau (snd (sm_process s target)) \<and> 0 < sampleRate (snd (sm_process s target)) \<and>
         0 \<le> sm_a (snd (sm_process s target)) \<and> sm_a (snd (sm_process s target)) \<le> 1"
proof -
  have a: "0 < sm_a (sm_setSampleRate s fs) \<and> sm_a (sm_setSampleRate s fs) < 1"
    unfolding coeff_recomputed setter_fields using assms by (intro exp_coeff_in_unit) simp_all
  have b: "0 < sm_a (sm_setTimeConstant s t) \<and> sm_a (sm_setTimeConstant s t) < 1"
    unfolding coeff_recomputed setter_fields using assms by (intro exp_coeff_in_unit) simp_all
  show "0 < tau (sm_setSampleRate s fs) \<and> 0 < sampleRate (sm_setSampleRate s fs) \<and>
         0 \<le> sm_a (sm_setSampleRate s fs) \<and> sm_a (sm_setSampleRate s fs) \<le> 1"
    using assms a by (simp add: setter_fields)
  show "0 < tau (sm_setTimeConstant s t) \<and> 0 < sampleRate (sm_setTimeConstant s t) \<and>
         0 \<le> sm_a (sm_setTimeConstant s t) \<and> sm_a (sm_setTimeConstant s t) \<le> 1"
    using assms b by (simp add: setter_fields)
  show "0 < tau (sm_reset s v) \<and> 0 < sampleRate (sm_reset s v) \<and>
         0 \<le> sm_a (sm_reset s v) \<and> sm_a (sm_reset s v) \<le> 1"
    using assms by (simp add: sm_reset_def)
  show "0 < tau (snd (sm_process s target)) \<and> 0 < sampleRate (snd (sm_process s target)) \<and>
         0 \<le> sm_a (snd (sm_process s target)) \<and> sm_a (snd (sm_process s target)) \<le> 1"
    using assms by (simp add: sm_process_update)
qed

lemma smoother_invariant_init:
  "0 < tau OnePoleSmoother_init \<and> 0 < sampleRate OnePoleSmoother_init \<and>
   0 \<le> sm_a OnePoleSmoother_init \<and> sm_a OnePoleSmoother_init \<le> 1"
  by (simp add: OnePoleSmoother_init_def)

text \<open>
  Claim C2. For every smoother state and target, \<^verbatim>\<open>process\<close> stores
  \<open>a * (z + 1 / 10 ^ 20) + (1 - a) * target\<close> as the new state and returns it, leaving the
  coefficient alone. After \<^verbatim>\<open>setSampleRate\<close> and after \<^verbatim>\<open>setTimeConstant\<close> the coefficient
  is \<open>exp (- 1 / (tau * sampleRate))\<close> of the values then stored (the sample rate replaced
  by 48000 when not positive, the time constant raised to \<open>1 / 10 ^ 6\<close>), and it lies
  strictly between 0 and 1 when the other of the two values is positive. Whenever the
  coefficient lies in \<open>[0, 1]\<close> the result lies between \<open>z + 1 / 10 ^ 20\<close> and the target:
  it is bounded by its inputs, which is what remains of "finite" in real arithmetic.
\<close>

theorem smoother_step_and_coefficient:
  "fst (sm_process s target) = sm_a s * (sm_z s + 1 / 10 ^ 20) + (1 - sm_a s) * target \<and>
   sm_z (snd (sm_process s target)) = fst (sm_process s target) \<and>
   sm_a (snd (sm_process s target)) = sm_a s \<and>
   sm_a (sm_setSampleRate s fs) = exp (- 1 / (tau s * (if fs > 0 then fs else 48000))) \<and>
   sm_a (sm_setTimeConstant s t) =
     exp (- 1 / ((if t > 1 / 10 ^ 6 then t else 1 / 10 ^ 6) * sampleRate s)) \<and>
   (0 < tau s \<longrightarrow> 0 < sm_a (sm_setSampleRate s fs) \<and> sm_a (sm_setSampleRate s fs) < 1) \<and>
   (0 < sampleRate s \<longrightarrow>
      0 < sm_a (sm_setTimeConstant s t) \<and> sm_a (sm_setTimeConstant s t) < 1) \<and>
   (0 \<le> sm_a s \<and> sm_a s \<le> 1 \<longrightarrow>
      min (sm_z s + 1 / 10 ^ 20) target \<le> fst (sm_process s target) \<and>
      fst (sm_process s target) \<le> max (sm_z s + 1 / 10 ^ 20) target)"
proof (intro conjI impI)
  show "sm_a (sm_setSampleRate s fs) = exp (- 1 / (tau s * (if fs > 0 then fs else 48000)))"
    by (simp only: coeff_recomputed setter_fields)
  show "sm_a (sm_setTimeConstant s t) =
     exp (- 1 / ((if t > 1 / 10 ^ 6 then t else 1 / 10 ^ 6) * sampleRate s))"
    by (simp only: coeff_recomputed setter_fields)
  show "0 < sm_a (sm_setSampleRate s fs)" "sm_a (sm_setSampleRate s fs) < 1" if "0 < tau s"
    unfolding coeff_recomputed setter_fields
    using that exp_coeff_in_unit [of "tau s" "if fs > 0 then fs else 48000"] by simp_all
  show "0 < sm_a (sm_setTimeConstant s t)" "sm_a (sm_setTimeConstant s t) < 1"
    if "0 < sampleRate s"
    unfolding coeff_recomputed setter_fields
    using that exp_coeff_in_unit [of "if t > 1 / 10 ^ 6 then t else 1 / 10 ^ 6" "sampleRate s"]
    by simp_all
  show "min (sm_z s + 1 / 10 ^ 20) target \<le> fst (sm_process s target)"
    "fst (sm_process s target) \<le> max (sm_z s + 1 / 10 ^ 20) target"
    if "0 \<le> sm_a s \<and> sm_a s \<le> 1"
    unfolding sm_process_update
    using that convex_between [of "sm_a s" "sm_z s + 1 / 10 ^ 20" target] by simp_all
qed (simp_all add: sm_process_update)

theorem smoother_step_and_coefficient_witness:
  "fst (sm_process OnePoleSmoother_init 5) = 5 \<and>
   sm_a (sm_setSampleRate OnePoleSmoother_init 44100) = exp (- 1 / 441) \<and>
   0 < sm_a (sm_setSampleRate OnePoleSmoother_init 44100) \<and>
   sm_a (sm_setSampleRate OnePoleSmoother_init 44100) < 1 \<and>
   0 < sm_a (sm_setTimeConstant OnePoleSmoother_init (1 / 100)) \<and>
   sm_a (sm_setTimeConstant OnePoleSmoother_init (1 / 100)) < 1 \<and>
   min (0 + 1 / 10 ^ 20) 5 \<le> fst (sm_process OnePoleSmoother_init 5) \<and>
   fst (sm_process OnePoleSmoother_init 5) \<le> max (0 + 1 / 10 ^ 20) 5"
  using smoother_step_and_coefficient
          [where s = OnePoleSmoother_init and target = 5 and fs = 44100 and t = "1 / 100"]
  by (simp add: OnePoleSmoother_init_def)

section \<open>Guard of Tremolo::process\<close>

text \<open>
  Claim C4. A call of \<^verbatim>\<open>Tremolo::process\<close> with a null buffer, or with a channel count
  below 1, returns normally and leaves the buffer and every field of the engine (phase,
  phase increment, both smoothers and the rest) as they were, whatever the frame count.
\<close>

theorem process_null_or_no_channels_noop:
  "process m s None frames channels = Some (s, None) \<and>
   (channels < 1 \<longrightarrow> process m s (Some b) frames channels = Some (s, Some b))"
  by (simp add: process_def)

theorem process_null_or_no_channels_noop_witness:
  "process libm_ideal Tremolo_init None 7 2 = Some (Tremolo_init, None) \<and>
   ((0::int) < 1 \<and>
    process libm_ideal Tremolo_init (Some [1 / 2, - 1 / 4]) 1 0
      = Some (Tremolo_init, Some [1 / 2, - 1 / 4]))"
  using process_null_or_no_channels_noop
          [where m = libm_ideal and s = Tremolo_init and frames = 7 and channels = 2 and b = "[]"]
        process_null_or_no_channels_noop
          [where m = libm_ideal and s = Tremolo_init and frames = 1 and channels = 0
             and b = "[1 / 2, - 1 / 4]"]
  by simp

section \<open>The analysis window\<close>

lemma pushSample_length:
  "length (buf (pushSample fe L R)) =
     (if length (buf fe) < FrameSize then Suc (length (buf fe)) else length (buf fe))"
  by (simp add: pushSample_def Let_def)

lemma fe_step_bounded:
  "length (buf fe) \<le> FrameSize \<Longrightarrow> length (buf (fe_step fe x)) \<le> FrameSize"
  by (cases x) (simp_all add: pushSample_length fe_reset_def)

lemma fe_run_bounded:
  "length (buf fe) \<le> FrameSize \<Longrightarrow> length (buf (fe_run fe ops)) \<le> FrameSize"
  unfolding fe_run_def
  by (induction ops arbitrary: fe) (simp_all add: fe_step_bounded)

lemma pushes_length:
  "length (buf fe) + length ls \<le> FrameSize \<Longrightarrow>
   length (buf (fe_run fe (map (\<lambda>(l, r). PushSample l r) ls))) = length (buf fe) + length ls"
  unfolding fe_run_def
proof (induction ls arbitrary: fe)
  case Nil
  then show ?case by simp
next
  case (Cons p ls)
  obtain l r where p: "p = (l, r)" by (cases p)
  have len: "length (buf (pushSample fe l r)) = Suc (length (buf fe))"
    using Cons.prems by (simp add: pushSample_length)
  have "length (buf (foldl fe_step (pushSample fe l r) (map (\<lambda>(l, r). PushSample l r) ls)))
          = length (buf (pushSample fe l r)) + length ls"
    using Cons.prems len by (intro Cons.IH) simp
  then show ?case by (simp add: p len)
qed

text \<open>
  Claim C5. Whatever operations (pushes, resets, queries) are applied to a freshly
  constructed extractor, the window never holds more than 1024 samples, and every single
  operation keeps a window of at most 1024 samples within that bound. A push onto a window
  of exactly 1024 samples drops the oldest sample and appends the new mid value at the
  end; a push onto a shorter window only appends. \<^verbatim>\<open>ready()\<close> is true exactly when the
  window holds 1024 samples; in particular a window that was reset and then refilled with
  fewer than 1024 samples is not ready.
\<close>

theorem window_bounded_fifo_ready:
  "length (buf (fe_run FeatureExtractor_init ops)) \<le> 1024 \<and>
   (length (buf fe) \<le> 1024 \<longrightarrow> length (buf (fe_step fe x)) \<le> 1024) \<and>
   (length (buf fe) = 1024 \<longrightarrow> buf (pushSample fe L R) = tl (buf fe) @ [(L + R) / 2]) \<and>
   (length (buf fe) < 1024 \<longrightarrow> buf (pushSample fe L R) = buf fe @ [(L + R) / 2]) \<and>
   (ready fe \<longleftrightarrow> length (buf fe) = 1024) \<and>
   (length ls < 1024 \<longrightarrow>
      \<not> ready (fe_run (fe_reset fe) (map (\<lambda>(l, r). PushSample l r) ls)))"
proof (intro conjI impI)
  show "length (buf (fe_run FeatureExtractor_init ops)) \<le> 1024"
    using fe_run_bounded [of FeatureExtractor_init ops]
    by (simp add: FeatureExtractor_init_def FrameSize_def)
  show "length (buf (fe_step fe x)) \<le> 1024" if "length (buf fe) \<le> 1024"
    using that fe_step_bounded [of fe x] by (simp add: FrameSize_def)
  show "buf (pushSample fe L R) = tl (buf fe) @ [(L + R) / 2]" if "length (buf fe) = 1024"
  proof -
    from that have "buf fe \<noteq> []" by auto
    with that show ?thesis by (simp add: pushSample_def Let_def FrameSize_def)
  qed
  show "buf (pushSample fe L R) = buf fe @ [(L + R) / 2]" if "length (buf fe) < 1024"
    using that by (simp add: pushSample_def Let_def FrameSize_def)
  show "ready fe \<longleftrightarrow> length (buf fe) = 1024"
    by (simp add: ready_def FrameSize_def)
  show "\<not> ready (fe_run (fe_reset fe) (map (\<lambda>(l, r). PushSample l r) ls))" if "length ls < 1024"
    using that pushes_length [of "fe_reset fe" ls]
    by (simp add: ready_def fe_reset_def FrameSize_def)
qed

theorem window_bounded_fifo_ready_witness:
  "length (buf (fe_run FeatureExtractor_init [PushSample 1 0, Reset, Zcr])) \<le> 1024 \<and>
   length (buf (fe_step \<lparr>buf = [0]\<rparr> (PushSample 1 1))) \<le> 1024 \<and>
   buf (pushSample \<lparr>buf = replicate 1024 0\<rparr> 1 1) = tl (replicate 1024 0) @ [1] \<and>
   buf (pushSample \<lparr>buf = [0]\<rparr> 1 1) = [0, 1] \<and>
   \<not> ready (fe_run (fe_reset \<lparr>buf = replicate 1024 0\<rparr>) [PushSample 1 1])"
  using window_bounded_fifo_ready
          [where fe = "\<lparr>buf = replicate 1024 0\<rparr>" and ops = "[PushSample 1 0, Reset, Zcr]"
             and x = "PushSample 1 1" and L = 1 and R = 1 and ls = "[(1, 1)]"]
        window_bounded_fifo_ready
          [where fe = "\<lparr>buf = [0]\<rparr>" and ops = "[]"
             and x = "PushSample 1 1" and L = 1 and R = 1 and ls = "[]"]
  by simp

section \<open>Zero-crossing rate\<close>

lemma crossing_iff: "((a \<ge> 0 \<and> b < 0) \<or> (a < 0 \<and> b \<ge> 0)) \<longleftrightarrow> ((0 \<le> (a::real)) \<noteq> (0 \<le> (b::real)))"
  by auto

lemma zcr_loop_count:
  "zcr_loop xs i c =
     c + length (filter (\<lambda>j. (0 \<le> xs ! (j - 1)) \<noteq> (0 \<le> xs ! j)) [i..<length xs])"
proof (induction xs i c rule: zcr_loop.induct)
  case (1 xs i c)
  show ?case
  proof (cases "i < length xs")
    case True
    then have up: "[i..<length xs] = i # [i + 1..<length xs]"
      by (simp add: upt_conv_Cons)
    show ?thesis
      using True "1.IH" [OF True refl refl]
      by (subst zcr_loop.simps) (simp add: up Let_def crossing_iff)
  next
    case False
    then show ?thesis by (subst zcr_loop.simps) simp
  qed
qed

lemma spec_sign_transitions_le: "spec_sign_transitions xs \<le> length xs - 1"
  unfolding spec_sign_transitions_def
  using length_filter_le [of _ "[1..<length xs]"] by simp

text \<open>
  Claim C6. \<^verbatim>\<open>zcr()\<close> is 0 on a window of fewer than two samples; otherwise it is the
  number of sign transitions between neighbouring samples (a sample \<open>\<ge> 0\<close>, zero
  included, followed by one \<open>< 0\<close>, or the reverse) divided by the number of neighbouring
  pairs of the window. The result always lies between 0 and 1.
\<close>

theorem zcr_counts_sign_transitions:
  "zcr fe =
     (if length (buf fe) < 2 then 0
      else real (spec_sign_transitions (buf fe)) / real (length (buf fe) - 1)) \<and>
   0 \<le> zcr fe \<and> zcr fe \<le> 1"
proof -
  have eq: "zcr fe =
     (if length (buf fe) < 2 then 0
      else real (spec_sign_transitions (buf fe)) / real (length (buf fe) - 1))"
    by (simp add: zcr_def zcr_loop_count spec_sign_transitions_def)
  have "real (spec_sign_transitions (buf fe)) / real (length (buf fe) - 1) \<le> 1"
    if "\<not> length (buf fe) < 2"
  proof -
    have "0 < real (length (buf fe) - 1)" using that by simp
    moreover have "real (spec_sign_transitions (buf fe)) \<le> real (length (buf fe) - 1)"
      using spec_sign_transitions_le [of "buf fe"] by (simp only: of_nat_le_iff)
    ultimately show ?thesis by (simp only: divide_le_eq_1_pos)
  qed
  with eq show ?thesis by auto
qed

theorem zcr_counts_sign_transitions_witness:
  "zcr \<lparr>buf = [1, - 1, 0, 2]\<rparr> = 2 / 3 \<and> zcr \<lparr>buf = [5]\<rparr> = 0"
  using zcr_counts_sign_transitions [of "\<lparr>buf = [1, - 1, 0, 2]\<rparr>"]
        zcr_counts_sign_transitions [of "\<lparr>buf = [5]\<rparr>"]
  by (simp add: spec_sign_transitions_def upt_rec)

section \<open>Tempo sync\<close>

text \<open>
  Claim C9. \<^verbatim>\<open>divisionToHz\<close> maps the divisions 1, 1/2, 1/4, 1/8 and 1/16 to
  \<open>(bpm / 60) / beatsPerCycle\<close> with \<open>beatsPerCycle\<close> 4, 2, 1, 0.5 and 0.25. For any
  other division string it returns \<open>- 1\<close>, and \<^verbatim>\<open>main\<close> then leaves the engine as it
  was, so the rate set before is kept.
\<close>

theorem divisionToHz_table:
  "divisionToHz bpm ''1'' = (bpm / 60) / 4 \<and>
   divisionToHz bpm ''1/2'' = (bpm / 60) / 2 \<and>
   divisionToHz bpm ''1/4'' = (bpm / 60) / 1 \<and>
   divisionToHz bpm ''1/8'' = (bpm / 60) / (1 / 2) \<and>
   divisionToHz bpm ''1/16'' = (bpm / 60) / (1 / 4) \<and>
   (dv \<notin> {''1'', ''1/2'', ''1/4'', ''1/8'', ''1/16''} \<longrightarrow>
      divisionToHz bpm dv = - 1 \<and> main_rateSync trem (Some (bpm, dv)) = trem)"
  by (simp add: divisionToHz_def beats_def main_rateSync_def)

theorem divisionToHz_table_witness:
  "divisionToHz 120 ''1/8'' = 4 \<and> divisionToHz 120 ''1/3'' = - 1 \<and>
   main_rateSync Tremolo_init (Some (120, ''1/3'')) = Tremolo_init"
  using divisionToHz_table [of 120 "''1/3''" Tremolo_init]
  by simp

section \<open>Waveform bounds\<close>

lemma fmod_1_nonneg: "0 \<le> x \<Longrightarrow> fmod x 1 = x - of_int \<lfloor>x\<rfloor>"
  by (simp add: fmod_def trunc_toward_zero_def)

lemma fmod_1_range: "0 \<le> x \<Longrightarrow> 0 \<le> fmod x 1 \<and> fmod x 1 < 1"
  by (simp add: fmod_1_nonneg) linarith

lemma half_shift_range: "- 1 \<le> (y::real) \<Longrightarrow> y \<le> 1 \<Longrightarrow> 0 \<le> 1 / 2 * (1 + y) \<and> 1 / 2 * (1 + y) \<le> 1"
  by auto

lemma lfoSine_range:
  "\<forall>x. - 1 \<le> sinf m x \<and> sinf m x \<le> 1 \<Longrightarrow> 0 \<le> lfoSine m ph \<and> lfoSine m ph \<le> 1"
  unfolding lfoSine_def
  by (rule half_shift_range) simp_all

lemma lfoTriangle_range: "0 \<le> ph \<Longrightarrow> 0 \<le> lfoTriangle ph \<and> lfoTriangle ph \<le> 1"
  using fmod_1_range [of ph] by (simp add: lfoTriangle_def Let_def)

lemma lfoSquareSoft_range:
  "\<forall>x. - 1 \<le> tanhf m x \<and> tanhf m x \<le> 1 \<Longrightarrow>
   0 \<le> lfoSquareSoft m ph \<and> lfoSquareSoft m ph \<le> 1"
proof -
  assume r: "\<forall>x. - 1 \<le> tanhf m x \<and> tanhf m x \<le> 1"
  have "0 \<le> 1 / 2 * (1 + tanhf m (3 * sinf m (2 * pi_f * ph))) \<and>
        1 / 2 * (1 + tanhf m (3 * sinf m (2 * pi_f * ph))) \<le> 1"
    by (rule half_shift_range) (simp_all add: r)
  then show ?thesis by (simp add: lfoSquareSoft_def Let_def add.commute)
qed


text \<open>
  The bound on the triangle generator is for phases \<open>\<ge> 0\<close>. These are the phases the
  generators are called with: they are private to the engine, whose phase starts at 0 and
  only grows (lemmas \<open>engine_phase_invariant\<close> and \<open>engine_lfo_in_unit\<close> below).
  \<^verbatim>\<open>std::fmod\<close> keeps the sign of its first argument, so at an argument below 0, which no
  call supplies, the same arithmetic would give a negative value (\<open>- 1/2\<close> at \<open>- 1/4\<close>).
\<close>

lemma trunc_minus_quarter: "trunc_toward_zero (- 1 / 4) = 0"
proof -
  have "\<lceil>- 1 / 4 :: real\<rceil> = 0" by (simp add: ceiling_eq_iff)
  then show ?thesis by (simp add: trunc_toward_zero_def)
qed

lemma lfoTriangle_at_minus_quarter: "lfoTriangle (- 1 / 4) = - 1 / 2"
  using trunc_minus_quarter by (simp add: lfoTriangle_def fmod_def Let_def)



section \<open>The processing loop in closed form\<close>

lemma process_frame_eq:
  "process_frame m s b i channels =
     (if channels = 1 then
        (if i < length b then Some (frame_state s, b[i := mix (wet s) (gainL m s) (b ! i)]) else None)
      else
        (if i * 2 + 1 < length b
         then Some (frame_state s,
                    b[i * 2 := mix (wet s) (gainL m s) (b ! (i * 2)),
                      i * 2 + 1 := mix (wet s) (gainR m s) (b ! (i * 2 + 1))])
         else None))"
  by (simp add: process_frame_def frame_state_def gainL_def gainR_def Let_def split: prod.splits)

lemma frame_state_fields:
  "wet (frame_state s) = wet s"
  "stereoPhaseR (frame_state s) = stereoPhaseR s"
  "shape (frame_state s) = shape s"
  "sr (frame_state s) = sr s"
  "rateHz (frame_state s) = rateHz s"
  "depth (frame_state s) = depth s"
  by (simp_all add: frame_state_def advance_phase_def Let_def split: prod.splits)

lemma funpow_frame_state_fields:
  "wet ((frame_state ^^ n) s) = wet s"
  "stereoPhaseR ((frame_state ^^ n) s) = stereoPhaseR s"
  by (induction n) (simp_all add: frame_state_fields)

lemma funpow_shift: "j < n \<Longrightarrow> (f ^^ (n - (j + 1))) (f x) = (f ^^ (n - j)) x"
proof -
  assume "j < n"
  then have "n - j = Suc (n - (j + 1))" by simp
  then show ?thesis by (simp only: funpow.simps o_apply funpow_swap1)
qed

lemma process_loop_mono:
  "frames \<le> length b \<Longrightarrow>
   \<exists>out. process_loop m s b i frames 1 = Some ((frame_state ^^ (frames - i)) s, out) \<and>
         length out = length b \<and>
         (\<forall>k<length b. out ! k =
            (if i \<le> k \<and> k < frames
             then mix (wet s) (gainL m ((frame_state ^^ (k - i)) s)) (b ! k)
             else b ! k))"
proof (induction m s b i frames "1::int" rule: process_loop.induct)
  case (1 m s b i frames)
  show ?case
  proof (cases "i < frames")
    case False
    then show ?thesis by (subst process_loop.simps) simp
  next
    case True
    let ?b1 = "b[i := mix (wet s) (gainL m s) (b ! i)]"
    have pf: "process_frame m s b i 1 = Some (frame_state s, ?b1)"
      using True "1.prems" by (simp add: process_frame_eq)
    have "frames \<le> length ?b1" using "1.prems" by simp
    from "1.hyps" [OF True pf refl this]
    obtain out where out:
      "process_loop m (frame_state s) ?b1 (i + 1) frames 1
         = Some ((frame_state ^^ (frames - (i + 1))) (frame_state s), out)"
      "length out = length ?b1"
      "\<forall>k<length ?b1. out ! k =
            (if i + 1 \<le> k \<and> k < frames
             then mix (wet (frame_state s)) (gainL m ((frame_state ^^ (k - (i + 1))) (frame_state s))) (?b1 ! k)
             else ?b1 ! k)"
      by blast
    have st: "(frame_state ^^ (frames - (i + 1))) (frame_state s) = (frame_state ^^ (frames - i)) s"
      using True by (rule funpow_shift)
    have vals: "out ! k =
            (if i \<le> k \<and> k < frames
             then mix (wet s) (gainL m ((frame_state ^^ (k - i)) s)) (b ! k)
             else b ! k)" if k: "k < length b" for k
    proof (cases "i + 1 \<le> k \<and> k < frames")
      case True
      then have "(frame_state ^^ (k - (i + 1))) (frame_state s) = (frame_state ^^ (k - i)) s"
        by (intro funpow_shift) simp
      with True k out(3) show ?thesis by (simp add: frame_state_fields)
    next
      case False
      with k out(3) True show ?thesis by (cases "k = i") auto
    qed
    show ?thesis
      apply (subst process_loop.simps)
      using True pf out(1,2) st vals by simp
  qed
qed


lemma process_loop_stereo:
  "channels \<noteq> 1 \<Longrightarrow> 2 * frames \<le> length b \<Longrightarrow>
   \<exists>out. process_loop m s b i frames channels = Some ((frame_state ^^ (frames - i)) s, out) \<and>
         length out = length b \<and>
         (\<forall>k<length b. out ! k =
            (if 2 * i \<le> k \<and> k < 2 * frames
             then mix (wet s) ((if even k then gainL m else gainR m) ((frame_state ^^ (k div 2 - i)) s)) (b ! k)
             else b ! k))"
proof (induction m s b i frames channels rule: process_loop.induct)
  case (1 m s b i frames channels)
  show ?case
  proof (cases "i < frames")
    case False
    then show ?thesis by (subst process_loop.simps) simp
  next
    case True
    let ?b1 = "b[i * 2 := mix (wet s) (gainL m s) (b ! (i * 2)),
                 i * 2 + 1 := mix (wet s) (gainR m s) (b ! (i * 2 + 1))]"
    have inb: "i * 2 + 1 < length b" using True "1.prems" by simp
    have pf: "process_frame m s b i channels = Some (frame_state s, ?b1)"
      using inb "1.prems" by (simp add: process_frame_eq)
    have "2 * frames \<le> length ?b1" using "1.prems" by simp
    from "1.IH" [OF True pf refl "1.prems"(1) this]
    obtain out where out:
      "process_loop m (frame_state s) ?b1 (i + 1) frames channels
         = Some ((frame_state ^^ (frames - (i + 1))) (frame_state s), out)"
      "length out = length ?b1"
      "\<forall>k<length ?b1. out ! k =
            (if 2 * (i + 1) \<le> k \<and> k < 2 * frames
             then mix (wet (frame_state s))
                    ((if even k then gainL m else gainR m)
                       ((frame_state ^^ (k div 2 - (i + 1))) (frame_state s))) (?b1 ! k)
             else ?b1 ! k)"
      by blast
    have st: "(frame_state ^^ (frames - (i + 1))) (frame_state s) = (frame_state ^^ (frames - i)) s"
      using True by (rule funpow_shift)
    have vals: "out ! k =
            (if 2 * i \<le> k \<and> k < 2 * frames
             then mix (wet s) ((if even k then gainL m else gainR m) ((frame_state ^^ (k div 2 - i)) s)) (b ! k)
             else b ! k)" if k: "k < length b" for k
    proof -
      consider (later) "2 * (i + 1) \<le> k" "k < 2 * frames" | (left) "k = i * 2"
        | (right) "k = i * 2 + 1" | (other) "k < 2 * i \<or> 2 * frames \<le> k"
        by atomize_elim arith
      then show ?thesis
      proof cases
        case later
        then have "i < k div 2" by arith
        then have "(frame_state ^^ (k div 2 - (i + 1))) (frame_state s) = (frame_state ^^ (k div 2 - i)) s"
          by (rule funpow_shift)
        moreover have "?b1 ! k = b ! k" using later by simp
        ultimately show ?thesis using later k out(3) by (simp add: frame_state_fields)
      next
        case left
        then have "out ! k = ?b1 ! k" using k out(3) by simp
        also have "\<dots> = mix (wet s) (gainL m s) (b ! (i * 2))" using left inb by simp
        finally show ?thesis using left True by simp
      next
        case right
        then have "out ! k = ?b1 ! k" using k out(3) by simp
        also have "\<dots> = mix (wet s) (gainR m s) (b ! (i * 2 + 1))" using right inb by simp
        finally show ?thesis using right True by simp
      next
        case other
        then have "out ! k = ?b1 ! k" using k out(3) True by auto
        also have "\<dots> = b ! k" using other True by auto
        finally show ?thesis using other by auto
      qed
    qed
    show ?thesis
      apply (subst process_loop.simps)
      using True pf out(1,2) st vals by simp
  qed
qed

lemma process_loop_channels:
  "channels \<noteq> 1 \<Longrightarrow> process_loop m s b i frames channels = process_loop m s b i frames 2"
proof (induction m s b i frames channels rule: process_loop.induct)
  case (1 m s b i frames channels)
  have pf: "process_frame m s b i channels = process_frame m s b i 2"
    using "1.prems" by (simp add: process_frame_eq)
  show ?case
  proof (cases "i < frames")
    case False
    then show ?thesis by (simp add: process_loop.simps)
  next
    case True
    show ?thesis
    proof (cases "process_frame m s b i channels")
      case None
      with pf True show ?thesis by (simp add: process_loop.simps [of m s b i])
    next
      case (Some r)
      obtain s' b' where r: "r = (s', b')" by (cases r)
      from "1.IH" [OF True Some [unfolded r] refl "1.prems"]
      have "process_loop m s' b' (i + 1) frames channels = process_loop m s' b' (i + 1) frames 2" .
      moreover have "process_loop m s b i frames channels = process_loop m s' b' (i + 1) frames channels"
        using True Some r by (subst process_loop.simps) simp
      moreover have "process_loop m s b i frames 2 = process_loop m s' b' (i + 1) frames 2"
        using True Some r pf by (subst process_loop.simps) simp
      ultimately show ?thesis by simp
    qed
  qed
qed

section \<open>Dry signal at wet = 0\<close>

lemma mix_wet_zero: "mix 0 g x = clamp11 (x + tiny)"
  by (simp add: mix_def Let_def)

lemma wet_setWet_zero: "wet (setWet s 0) = 0"
  by (simp add: setWet_def clamp01_def)

text \<open>
  Claim C3. After \<^verbatim>\<open>setWet(0)\<close>, whatever the rest of the engine state, a call of
  \<^verbatim>\<open>process\<close> on a mono buffer of at least \<open>frames\<close> samples, or on a buffer of at least
  \<open>2 * frames\<close> samples with two or more channels, succeeds and writes at every processed
  position the input sample plus the epsilon \<open>1 / 10 ^ 20\<close>, clamped to \<open>[-1, 1]\<close>, and
  nothing else happens to the sample; the positions after the processed ones keep their
  value.
\<close>

theorem wet_zero_output_is_input:
  "channels \<ge> 1 \<Longrightarrow> (if channels = 1 then frames else 2 * frames) \<le> length b \<Longrightarrow>
   \<exists>s' out. process m (setWet s 0) (Some b) frames channels = Some (s', Some out) \<and>
     length out = length b \<and>
     (\<forall>k<length b. out ! k =
        (if k < (if channels = 1 then frames else 2 * frames)
         then clamp11 (b ! k + tiny) else b ! k))"
proof -
  assume ch: "channels \<ge> 1" and len: "(if channels = 1 then frames else 2 * frames) \<le> length b"
  let ?s = "setWet s 0"
  have w: "wet ?s = 0" by (simp add: setWet_def clamp01_def)
  show ?thesis
  proof (cases "channels = 1")
    case True
    with len have "frames \<le> length b" by simp
    from process_loop_mono [OF this, where s = "?s" and i = 0 and m = m]
    obtain out where "process_loop m ?s b 0 frames 1 = Some ((frame_state ^^ (frames - 0)) ?s, out)"
      "length out = length b"
      "\<forall>k<length b. out ! k =
            (if 0 \<le> k \<and> k < frames
             then mix (wet ?s) (gainL m ((frame_state ^^ (k - 0)) ?s)) (b ! k)
             else b ! k)"
      by blast
    with True w show ?thesis by (simp add: process_def mix_wet_zero)
  next
    case False
    with len have "2 * frames \<le> length b" by simp
    from process_loop_stereo [OF False this, where s = "?s" and i = 0 and m = m]
    obtain out where "process_loop m ?s b 0 frames channels = Some ((frame_state ^^ (frames - 0)) ?s, out)"
      "length out = length b"
      "\<forall>k<length b. out ! k =
            (if 2 * 0 \<le> k \<and> k < 2 * frames
             then mix (wet ?s) ((if even k then gainL m else gainR m) ((frame_state ^^ (k div 2 - 0)) ?s)) (b ! k)
             else b ! k)"
      by blast
    with False ch w show ?thesis by (simp add: process_def mix_wet_zero)
  qed
qed

theorem wet_zero_output_is_input_witness:
  "(1::int) \<le> 2 \<and> 2 * 1 \<le> length [1 / 2, - 3, 7 :: real] \<and>
   (\<exists>s' out. process libm_ideal (setWet Tremolo_init 0) (Some [1 / 2, - 3, 7]) 1 2
        = Some (s', Some out) \<and>
      out ! 0 = clamp11 (1 / 2 + tiny) \<and> out ! 1 = clamp11 (- 3 + tiny) \<and> out ! 2 = 7)"
  using wet_zero_output_is_input
          [where channels = 2 and frames = 1 and b = "[1 / 2, - 3, 7]" and s = Tremolo_init
             and m = libm_ideal]
  by auto

section \<open>Buffer positions touched with two or more channels\<close>

text \<open>
  Claim C10 as stated, at three channels. With three channels and two frames the caller's
  buffer is laid out as frame 0
  (channels 1, 2, 3) followed by frame 1 (channels 1, 2, 3). The loop overwrites positions
  0 to 3: position 2, the third channel's sample of frame 0, is changed from 5 to 1, while
  positions 4 and 5 are left alone.
\<close>

theorem third_channel_sample_overwritten:
  "map_option snd (process libm_ideal (setWet Tremolo_init 0) (Some [5, 5, 5, 5, 5, 5]) 2 3)
     = Some (Some [1, 1, 1, 1, 5, 5])"
  by (simp add: process_def process_loop.simps process_frame_eq frame_state_fields
        wet_setWet_zero mix_wet_zero clamp11_def tiny_def)

text \<open>
  Claim C10, amended. With a channel count of 2 or more and a buffer of at least
  \<open>2 * frames\<close> samples, \<^verbatim>\<open>process\<close> behaves exactly as with channel count 2: it
  succeeds, keeps the length, leaves every position from \<open>2 * frames\<close> on as it was, and
  the engine state and the first \<open>2 * frames\<close> outputs depend on the first \<open>2 * frames\<close>
  inputs only. (Which channels those positions belong to is not part of the statement.)
\<close>

theorem stereo_indexing_only_first_2frames:
  "channels \<ge> 2 \<Longrightarrow> 2 * frames \<le> length b \<Longrightarrow>
   process m s (Some b) frames channels = process m s (Some b) frames 2 \<and>
   (\<exists>s' out. process m s (Some b) frames channels = Some (s', Some out) \<and>
      length out = length b \<and>
      drop (2 * frames) out = drop (2 * frames) b \<and>
      (\<forall>b2. 2 * frames \<le> length b2 \<and> take (2 * frames) b2 = take (2 * frames) b \<longrightarrow>
         (\<exists>out2. process m s (Some b2) frames channels = Some (s', Some out2) \<and>
            take (2 * frames) out2 = take (2 * frames) out)))"
proof -
  assume ch: "channels \<ge> 2" and len: "2 * frames \<le> length b"
  from ch have ch1: "channels \<noteq> 1" by simp
  have same: "process m s (Some b) frames channels = process m s (Some b) frames 2"
    using ch process_loop_channels [OF ch1, of m s b 0 frames] by (simp add: process_def)
  from process_loop_stereo [OF ch1 len, where s = s and i = 0 and m = m]
  obtain out where out: "process_loop m s b 0 frames channels = Some ((frame_state ^^ frames) s, out)"
    "length out = length b"
    "\<forall>k<length b. out ! k =
          (if k < 2 * frames
           then mix (wet s) ((if even k then gainL m else gainR m) ((frame_state ^^ (k div 2)) s)) (b ! k)
           else b ! k)"
    by auto
  have p: "process m s (Some b) frames channels = Some ((frame_state ^^ frames) s, Some out)"
    using ch out(1) by (simp add: process_def)
  have d: "drop (2 * frames) out = drop (2 * frames) b"
    using out(2,3) by (intro nth_equalityI) simp_all
  have rd: "\<exists>out2. process m s (Some b2) frames channels = Some ((frame_state ^^ frames) s, Some out2) \<and>
            take (2 * frames) out2 = take (2 * frames) out"
    if b2: "2 * frames \<le> length b2" "take (2 * frames) b2 = take (2 * frames) b" for b2
  proof -
    from process_loop_stereo [OF ch1 b2(1), where s = s and i = 0 and m = m]
    obtain out2 where out2: "process_loop m s b2 0 frames channels = Some ((frame_state ^^ frames) s, out2)"
      "length out2 = length b2"
      "\<forall>k<length b2. out2 ! k =
            (if k < 2 * frames
             then mix (wet s) ((if even k then gainL m else gainR m) ((frame_state ^^ (k div 2)) s)) (b2 ! k)
             else b2 ! k)"
      by auto
    have nth: "b2 ! k = b ! k" if "k < 2 * frames" for k
      using that b2(2) by (metis nth_take)
    have "take (2 * frames) out2 = take (2 * frames) out"
      using out(2,3) out2(2,3) b2(1) len nth by (intro nth_equalityI) simp_all
    with ch out2(1) show ?thesis by (simp add: process_def)
  qed
  from same p out(2) d rd show ?thesis by blast
qed

theorem stereo_indexing_only_first_2frames_witness:
  "(2::int) \<le> 3 \<and> 2 * 1 \<le> length [5, 5, 5 :: real] \<and>
   process libm_ideal Tremolo_init (Some [5, 5, 5]) 1 3 = process libm_ideal Tremolo_init (Some [5, 5, 5]) 1 2 \<and>
   (\<exists>s' out. process libm_ideal Tremolo_init (Some [5, 5, 5]) 1 3 = Some (s', Some out) \<and>
      length out = 3 \<and> drop 2 out = [5])"
proof -
  have h1: "(2::int) \<le> 3" and h2: "2 * 1 \<le> length [5, 5, 5 :: real]"
    by simp_all
  note r = stereo_indexing_only_first_2frames [OF h1 h2, where s = Tremolo_init and m = libm_ideal]
  from r have same: "process libm_ideal Tremolo_init (Some [5, 5, 5]) 1 3 = process libm_ideal Tremolo_init (Some [5, 5, 5]) 1 2"
    by (rule conjunct1)
  from r obtain s' out where o: "process libm_ideal Tremolo_init (Some [5, 5, 5]) 1 3 = Some (s', Some out)"
    "length out = length [5, 5, 5 :: real]" "drop (2 * 1) out = drop (2 * 1) [5, 5, 5 :: real]"
    by blast
  from o have "\<exists>s' out. process libm_ideal Tremolo_init (Some [5, 5, 5]) 1 3 = Some (s', Some out) \<and>
      length out = 3 \<and> drop 2 out = [5]"
    by simp
  with h1 h2 same show ?thesis by blast
qed

section \<open>The phase accumulator\<close>

lemma phase_frame_state:
  "phase (frame_state s) =
     (let p = phase s + max (1 / 10 ^ 9) (fst (sm_process (rateSm s) (rateHz s)) / sr s)
      in if p \<ge> 1 then p - 1 else p)"
  by (simp add: frame_state_def advance_phase_def Let_def split: prod.splits)

text \<open>One iteration keeps the phase in \<open>[0, 1)\<close> as long as the increment is at most 1,
  and it never makes a non-negative phase negative.\<close>

lemma phase_stays_when_slow:
  "0 \<le> phase s \<Longrightarrow> phase s < 1 \<Longrightarrow>
   max (1 / 10 ^ 9) (fst (sm_process (rateSm s) (rateHz s)) / sr s) \<le> 1 \<Longrightarrow>
   0 \<le> phase (frame_state s) \<and> phase (frame_state s) < 1"
  by (auto simp add: phase_frame_state Let_def)

lemma phase_nonneg_preserved:
  "0 \<le> phase s \<Longrightarrow> 0 \<le> phase (frame_state s)"
proof -
  assume "0 \<le> phase s"
  moreover have "(0::real) < max (1 / 10 ^ 9) (fst (sm_process (rateSm s) (rateHz s)) / sr s)"
    by (simp add: less_max_iff_disj)
  ultimately show ?thesis by (simp add: phase_frame_state Let_def)
qed

text \<open>Both generator arguments of an iteration are non-negative when the phase and the
  stereo offset are, and the setter only stores offsets in \<open>[0, 1/2]\<close>.\<close>

lemma stereoPhaseR_range:
  "0 \<le> stereoPhaseR (setStereoPhaseDeg s deg) \<and> stereoPhaseR (setStereoPhaseDeg s deg) \<le> 1 / 2"
  by (simp add: setStereoPhaseDeg_def Let_def)

lemma generator_phases_nonneg:
  "0 \<le> phase s \<Longrightarrow> 0 \<le> stereoPhaseR s \<Longrightarrow> 0 \<le> fmod (phase s + stereoPhaseR s) 1"
  using fmod_1_range [of "phase s + stereoPhaseR s"] by simp

text \<open>A fresh engine has phase and offset 0, no setter touches the phase, and the offset
  setter stores a non-negative value; so in every state the engine reaches, both
  generator arguments are \<open>\<ge> 0\<close> and both LFO values of an iteration lie in \<open>[0, 1]\<close>.\<close>

lemma engine_phase_invariant:
  "0 \<le> phase Tremolo_init \<and> 0 \<le> stereoPhaseR Tremolo_init"
  "0 \<le> phase s \<and> 0 \<le> stereoPhaseR s \<Longrightarrow>
     0 \<le> phase (frame_state s) \<and> 0 \<le> stereoPhaseR (frame_state s)"
  "0 \<le> phase s \<and> 0 \<le> stereoPhaseR s \<Longrightarrow>
     0 \<le> phase (setStereoPhaseDeg s deg) \<and> 0 \<le> stereoPhaseR (setStereoPhaseDeg s deg)"
  "0 \<le> phase s \<and> 0 \<le> stereoPhaseR s \<Longrightarrow>
     0 \<le> phase (setSampleRate s fs) \<and> 0 \<le> stereoPhaseR (setSampleRate s fs)"
  "0 \<le> phase s \<and> 0 \<le> stereoPhaseR s \<Longrightarrow>
     0 \<le> phase (setRateHz s r) \<and> 0 \<le> stereoPhaseR (setRateHz s r)"
  "0 \<le> phase s \<and> 0 \<le> stereoPhaseR s \<Longrightarrow>
     0 \<le> phase (setDepth s d) \<and> 0 \<le> stereoPhaseR (setDepth s d)"
  "0 \<le> phase s \<and> 0 \<le> stereoPhaseR s \<Longrightarrow>
     0 \<le> phase (setWet s w) \<and> 0 \<le> stereoPhaseR (setWet s w)"
  "0 \<le> phase s \<and> 0 \<le> stereoPhaseR s \<Longrightarrow>
     0 \<le> phase (setShape s sh) \<and> 0 \<le> stereoPhaseR (setShape s sh)"
  by (simp_all add: Tremolo_init_def phase_nonneg_preserved frame_state_fields
        setStereoPhaseDeg_def setSampleRate_def setRateHz_def setDepth_def setWet_def
        setShape_def Let_def)

lemma lfo_in_unit:
  assumes "\<forall>x. - 1 \<le> sinf m x \<and> sinf m x \<le> 1" "\<forall>x. - 1 \<le> tanhf m x \<and> tanhf m x \<le> 1"
    and "0 \<le> ph"
  shows "0 \<le> lfo m sh ph \<and> lfo m sh ph \<le> 1"
  using lfoSine_range [OF assms(1), of ph] lfoTriangle_range [OF assms(3)]
    lfoSquareSoft_range [OF assms(2), of ph]
  by (cases sh) (simp_all add: lfo_def lfoSquare_def Let_def)

lemma engine_lfo_in_unit:
  assumes "\<forall>x. - 1 \<le> sinf m x \<and> sinf m x \<le> 1" "\<forall>x. - 1 \<le> tanhf m x \<and> tanhf m x \<le> 1"
    and "0 \<le> phase s" "0 \<le> stereoPhaseR s"
  shows "0 \<le> lfo m (shape s) (phase s) \<and> lfo m (shape s) (phase s) \<le> 1"
    and "0 \<le> lfo m (shape s) (fmod (phase s + stereoPhaseR s) 1) \<and>
         lfo m (shape s) (fmod (phase s + stereoPhaseR s) 1) \<le> 1"
  using assms generator_phases_nonneg [of s] by (simp_all add: lfo_in_unit)

lemma fast_rate_fields:
  "phase (setSampleRate (setRateHz Tremolo_init 100000) 44100) = 0"
  "sr (setSampleRate (setRateHz Tremolo_init 100000) 44100) = 44100"
  "rateHz (setSampleRate (setRateHz Tremolo_init 100000) 44100) = 100000"
  "sm_z (rateSm (setSampleRate (setRateHz Tremolo_init 100000) 44100)) = 100000"
  "sm_a (rateSm (setSampleRate (setRateHz Tremolo_init 100000) 44100)) = exp (- 1 / 441)"
  by (simp_all add: setSampleRate_def setRateHz_def Tremolo_init_def Let_def
        sm_setSampleRate_def sm_setTimeConstant_def sm_reset_def updateCoeff_def
        OnePoleSmoother_init_def)

text \<open>
  Claim C1 at a rate above the sample rate. After \<^verbatim>\<open>setRateHz(100000)\<close> and
  \<^verbatim>\<open>setSampleRate(44100)\<close> on a fresh engine, the increment is above 2, so the single
  subtraction of lines 103--105 leaves the phase above 1 after processing one mono frame.
\<close>

theorem phase_escapes_unit_interval:
  "\<exists>s' out. process m (setSampleRate (setRateHz Tremolo_init 100000) 44100) (Some [0]) 1 1
       = Some (s', Some out) \<and> 1 < phase s'"
proof -
  let ?s = "setSampleRate (setRateHz Tremolo_init 100000) 44100"
  define rateNow where "rateNow = fst (sm_process (rateSm ?s) (rateHz ?s))"
  define inc where "inc = max (1 / 10 ^ 9) (rateNow / sr ?s)"
  have p: "process m ?s (Some [0]) 1 1 = Some (frame_state ?s, Some [mix (wet ?s) (gainL m ?s) 0])"
    by (simp add: process_def process_loop.simps process_frame_eq)
  have "rateNow = 100000 + exp (- 1 / 441) * tiny"
    by (simp add: rateNow_def sm_process_def Let_def fast_rate_fields algebra_simps)
  moreover have "0 \<le> exp (- 1 / 441 :: real) * tiny"
    by (simp add: tiny_def)
  ultimately have "100000 \<le> rateNow"
    by simp
  then have "2 < rateNow / sr ?s"
    by (simp add: fast_rate_fields)
  then have inc: "2 < inc"
    unfolding inc_def by (rule less_max_iff_disj [THEN iffD2, OF disjI2])
  have "phase (frame_state ?s) = (if 1 \<le> inc then inc - 1 else inc)"
    unfolding inc_def rateNow_def
    by (simp only: phase_frame_state Let_def fast_rate_fields(1) add_0)
  with inc have "1 < phase (frame_state ?s)"
    by simp
  with p show ?thesis
    by simp
qed


section \<open>Stereo phase offset 0\<close>

text \<open>
  The left generator reads \<^verbatim>\<open>phase_\<close> itself, the right one
  \<^verbatim>\<open>fmod(phase_ + stereoPhaseR_, 1)\<close>. With offset 0 the two arguments are the same number
  exactly while the phase lies in \<open>[0, 1)\<close>, and then both channels get the same gain,
  whatever the library functions return.
\<close>

lemma fmod_1_id: "0 \<le> x \<Longrightarrow> x < 1 \<Longrightarrow> fmod x 1 = x"
proof -
  assume "0 \<le> x" "x < 1"
  then have "\<lfloor>x\<rfloor> = 0" by linarith
  with \<open>0 \<le> x\<close> show ?thesis by (simp add: fmod_1_nonneg)
qed

lemma gainR_zero_offset:
  "stereoPhaseR s = 0 \<Longrightarrow> 0 \<le> phase s \<Longrightarrow> phase s < 1 \<Longrightarrow> gainR m s = gainL m s"
  by (simp add: gainR_def gainL_def fmod_1_id)

lemma stereo_identical_while_phase_in_unit:
  assumes ch: "channels \<ge> 2" and len: "2 * frames \<le> length b"
    and off: "stereoPhaseR s = 0"
    and eq: "\<forall>j<frames. b ! (2 * j) = b ! (2 * j + 1)"
    and ph: "\<forall>j<frames. 0 \<le> phase ((frame_state ^^ j) s) \<and> phase ((frame_state ^^ j) s) < 1"
  shows "\<exists>s' out. process m s (Some b) frames channels = Some (s', Some out) \<and>
     length out = length b \<and>
     (\<forall>j<frames. out ! (2 * j) = out ! (2 * j + 1))"
proof -
  from ch have ch1: "channels \<noteq> 1" by simp
  from process_loop_stereo [OF ch1 len, where s = s and i = 0 and m = m]
  obtain out where out: "process_loop m s b 0 frames channels = Some ((frame_state ^^ frames) s, out)"
    "length out = length b"
    "\<forall>k<length b. out ! k =
          (if k < 2 * frames
           then mix (wet s) ((if even k then gainL m else gainR m) ((frame_state ^^ (k div 2)) s)) (b ! k)
           else b ! k)"
    by auto
  have same: "out ! (2 * j) = out ! (2 * j + 1)" if j: "j < frames" for j
  proof -
    have g: "gainR m ((frame_state ^^ j) s) = gainL m ((frame_state ^^ j) s)"
      using ph j by (intro gainR_zero_offset) (simp_all add: funpow_frame_state_fields off)
    have "out ! (2 * j) = mix (wet s) (gainL m ((frame_state ^^ j) s)) (b ! (2 * j))"
      using out(3) j len by simp
    moreover have "out ! (2 * j + 1) = mix (wet s) (gainR m ((frame_state ^^ j) s)) (b ! (2 * j + 1))"
      using out(3) j len by simp
    ultimately show ?thesis using g eq j by simp
  qed
  from ch out(1,2) same show ?thesis by (simp add: process_def)
qed




end
